theory Spec2Isabelle
  imports Main
begin

section \<open>Python values, errors and log lines\<close>

text \<open>
  The program is \<^verbatim>\<open>src/calendar_sync.py\<close>: one class, \<^verbatim>\<open>CalendarSync\<close>, that reads
  events from Google Calendar and writes them to Office 365 through Microsoft Graph.
  The embedding covers \<^verbatim>\<open>load_config\<close>, \<^verbatim>\<open>create_event_key\<close>, \<^verbatim>\<open>get_existing_events\<close>
  and \<^verbatim>\<open>sync_calendars\<close>. Every Python exception the modelled code can raise is a value
  of \<open>py_error\<close>; a function that can raise returns \<open>py_error + 'a\<close>, with \<open>Inl\<close> the
  exception.
\<close>

datatype py_error =
    KeyError string
  | AttributeError
  | OSError
  | FileNotFoundError
  | JSONDecodeError
  | HTTPError
  | WebDriverException
  | Exception string

text \<open>
  A parsed JSON document, as \<^verbatim>\<open>json.load\<close> returns it. An object is the list of its
  members; \<open>map_of\<close> reads it, so the list stands for the dict whose members are the
  first entry of each key. Numbers are integers: no modelled code computes with them.
\<close>

datatype json =
    JNull
  | JBool bool
  | JInt int
  | JStr string
  | JArr "json list"
  | JObj "(string \<times> json) list"

text \<open>
  The lines the program writes to its logger, one constructor per \<^verbatim>\<open>logger\<close> call of
  the modelled functions. The count in "Retrieved n existing O365 events" is left out.
\<close>

datatype log_entry =
    Configuration_loaded
  | No_configuration_file
  | Error_reading_config
  | Retrieved_existing
  | Error_retrieving py_error
  | No_upcoming_events
  | O365_session_not_found
  | Updated_existing string
  | Event_unchanged string
  | Created_new string
  | Failed_to_sync string py_error
  | Error_during_sync py_error

text \<open>
  \<^verbatim>\<open>d.get(k, default)\<close> on a key whose value, when present, has a known type: the
  optional member is an \<open>option\<close>, \<open>None\<close> when the key is absent.
\<close>

definition dict_get :: "'a option \<Rightarrow> 'a \<Rightarrow> 'a" where
  "dict_get member dflt = (case member of None \<Rightarrow> dflt | Some v \<Rightarrow> v)"

text \<open>
  How an f-string renders a value that is a \<^verbatim>\<open>str\<close> or \<^verbatim>\<open>None\<close>: the string itself, or
  the four letters \<^verbatim>\<open>None\<close>.
\<close>

definition py_str :: "string option \<Rightarrow> string" where
  "py_str v = (case v of None \<Rightarrow> ''None'' | Some s \<Rightarrow> s)"

section \<open>Configuration\<close>

text \<open>
  \<^verbatim>\<open>load_config\<close> (lines 61-77). The state of \<^verbatim>\<open>config.json\<close> when the program starts:
  \<^item> \<open>Absent\<close>: \<^verbatim>\<open>os.path.exists\<close> is false;
  \<^item> \<open>Unreadable\<close>: the file exists and \<^verbatim>\<open>open\<close> raises an \<^verbatim>\<open>OSError\<close> (no permission);
  \<^item> \<open>Corrupt\<close>: the file is read and \<^verbatim>\<open>json.load\<close> raises \<^verbatim>\<open>JSONDecodeError\<close>;
  \<^item> \<open>Parsed v\<close>: \<^verbatim>\<open>json.load\<close> returns \<open>v\<close>.
  The only handler is \<^verbatim>\<open>except json.JSONDecodeError\<close>; any other exception leaves
  \<^verbatim>\<open>load_config\<close>, and \<^verbatim>\<open>__init__\<close> with it.
\<close>

datatype config_file = Absent | Unreadable | Corrupt | Parsed json

record config_defaults =
  gmail_email_default :: json
  o365_email_default :: json

text \<open>\<^verbatim>\<open>config.get(k, default)\<close> on whatever \<^verbatim>\<open>json.load\<close> returned: only a dict has \<^verbatim>\<open>get\<close>.\<close>

definition json_get :: "json \<Rightarrow> string \<Rightarrow> json \<Rightarrow> py_error + json" where
  "json_get v k dflt =
     (case v of
        JObj members \<Rightarrow> Inr (dict_get (map_of members k) dflt)
      | _ \<Rightarrow> Inl AttributeError)"

definition load_config :: "config_file \<Rightarrow> py_error + (config_defaults \<times> log_entry)" where
  "load_config f =
     (case f of
        Absent \<Rightarrow>
          Inr (\<lparr>gmail_email_default = JStr '''', o365_email_default = JStr ''''\<rparr>,
               No_configuration_file)
      | Unreadable \<Rightarrow> Inl OSError
      | Corrupt \<Rightarrow>
          Inr (\<lparr>gmail_email_default = JStr '''', o365_email_default = JStr ''''\<rparr>,
               Error_reading_config)
      | Parsed config \<Rightarrow>
          (case json_get config ''gmail_email'' (JStr '''') of
             Inl err \<Rightarrow> Inl err
           | Inr g \<Rightarrow>
               (case json_get config ''o365_email'' (JStr '''') of
                  Inl err \<Rightarrow> Inl err
                | Inr o365 \<Rightarrow>
                    Inr (\<lparr>gmail_email_default = g, o365_email_default = o365\<rparr>,
                         Configuration_loaded))))"

section \<open>Events\<close>

text \<open>
  An event is a Python dict. The model gives each key the code reads the type the two
  services document for it, and makes every key optional: \<open>None\<close> is "the key is not in
  the dict". \<open>time_obj\<close> is the dict under \<^verbatim>\<open>'start'\<close> and \<^verbatim>\<open>'end'\<close>. \<open>event\<close> holds the keys
  \<^verbatim>\<open>create_event_key\<close> reads, which Google events and Graph events share;
  \<open>google_event\<close> adds the keys of a source event, \<open>existing_event\<close> those of a
  destination event (Graph's \<^verbatim>\<open>location\<close> is an object with a \<^verbatim>\<open>displayName\<close>).
\<close>

record time_obj =
  dateTime :: "string option"
  date :: "string option"
  timeZone :: "string option"

record event =
  ev_id :: "string option"
  ev_start :: "time_obj option"
  ev_end :: "time_obj option"

record google_event = event +
  summary :: "string option"
  description :: "string option"
  location :: "string option"

record item_body =
  contentType :: string
  content :: string

record graph_location =
  displayName :: "string option"

record existing_event = event +
  subject :: "string option"
  body :: "item_body option"
  existing_location :: "graph_location option"

text \<open>
  The outbound payload, the dict \<^verbatim>\<open>o365_event\<close> of \<^verbatim>\<open>sync_calendars\<close>. Its \<^verbatim>\<open>dateTime\<close> is
  whatever \<^verbatim>\<open>.get('dateTime', .get('date'))\<close> returned, so it can be Python's \<^verbatim>\<open>None\<close>
  (here \<open>None\<close>); \<open>o365_body\<close> and \<open>o365_location\<close> are \<open>None\<close> when the payload has no such
  key, and \<open>o365_location\<close> holds the \<^verbatim>\<open>displayName\<close>.
\<close>

record payload_time =
  p_dateTime :: "string option"
  p_timeZone :: string

record o365_event =
  o365_subject :: string
  o365_start :: payload_time
  o365_end :: payload_time
  o365_body :: "item_body option"
  o365_location :: "string option"

text \<open>\<^verbatim>\<open>t.get('dateTime', t.get('date'))\<close> on a \<^verbatim>\<open>start\<close> or \<^verbatim>\<open>end\<close> dict.\<close>

definition start_time :: "time_obj \<Rightarrow> string option" where
  "start_time t = (case dateTime t of Some d \<Rightarrow> Some d | None \<Rightarrow> date t)"

text \<open>
  \<^verbatim>\<open>create_event_key\<close> (lines 223-242). \<^verbatim>\<open>event['start']\<close> raises \<^verbatim>\<open>KeyError\<close> when the
  event has no start; the two branches on \<^verbatim>\<open>is_google\<close> are the same code.
\<close>

definition create_event_key :: "'a event_scheme \<Rightarrow> bool \<Rightarrow> py_error + string" where
  "create_event_key ev is_google =
     (if is_google then
        (case ev_start ev of
           None \<Rightarrow> Inl (KeyError ''start'')
         | Some st \<Rightarrow> Inr (dict_get (ev_id ev) '''' @ ''_'' @ py_str (start_time st)))
      else
        (case ev_start ev of
           None \<Rightarrow> Inl (KeyError ''start'')
         | Some st \<Rightarrow> Inr (dict_get (ev_id ev) '''' @ ''_'' @ py_str (start_time st))))"

section \<open>The destination read\<close>

text \<open>
  \<^verbatim>\<open>get_existing_events\<close> (lines 244-278). The argument is what the read gave:
  \<open>Inl err\<close> when \<^verbatim>\<open>session.get\<close>, \<^verbatim>\<open>raise_for_status\<close> or \<^verbatim>\<open>response.json\<close> raised, and
  \<open>Inr v\<close> with \<open>v\<close> the member \<^verbatim>\<open>'value'\<close> of the response (\<open>None\<close> when it has none).
  The loop stores each event under its key, a later event replacing an earlier one
  with the same key. The whole body is inside \<^verbatim>\<open>try ... except Exception\<close>, which logs
  and returns the empty dict.
\<close>

type_synonym events_dict = "string \<rightharpoonup> existing_event"

fun build_events_dict :: "existing_event list \<Rightarrow> events_dict \<Rightarrow> py_error + events_dict" where
  "build_events_dict [] events_dict = Inr events_dict"
| "build_events_dict (ev # evs) events_dict =
     (case create_event_key ev False of
        Inl err \<Rightarrow> Inl err
      | Inr k \<Rightarrow> build_events_dict evs (events_dict(k \<mapsto> ev)))"

definition get_existing_events ::
    "py_error + existing_event list option \<Rightarrow> events_dict \<times> log_entry" where
  "get_existing_events response =
     (case response of
        Inl err \<Rightarrow> (Map.empty, Error_retrieving err)
      | Inr v \<Rightarrow>
          (case build_events_dict (dict_get v []) Map.empty of
             Inl err \<Rightarrow> (Map.empty, Error_retrieving err)
           | Inr events_dict \<Rightarrow> (events_dict, Retrieved_existing)))"

section \<open>The sync loop\<close>

text \<open>
  The first half of the loop body (lines 331-358): the key, the title and the payload
  of one source event. \<^verbatim>\<open>event['start']\<close> and \<^verbatim>\<open>event['end']\<close> are outside the inner
  \<^verbatim>\<open>try\<close>, so their \<^verbatim>\<open>KeyError\<close> leaves the loop.
\<close>

definition format_event :: "google_event \<Rightarrow> py_error + (string \<times> string \<times> o365_event)" where
  "format_event ev =
     (case create_event_key ev True of
        Inl err \<Rightarrow> Inl err
      | Inr event_key \<Rightarrow>
          (let event_summary = dict_get (summary ev) ''No Title'' in
           case ev_start ev of
             None \<Rightarrow> Inl (KeyError ''start'')
           | Some st \<Rightarrow>
               (case ev_end ev of
                  None \<Rightarrow> Inl (KeyError ''end'')
                | Some en \<Rightarrow>
                    (let payload = \<lparr>o365_subject = event_summary,
                              o365_start = \<lparr>p_dateTime = start_time st,
                                             p_timeZone = dict_get (timeZone st) ''UTC''\<rparr>,
                              o365_end = \<lparr>p_dateTime = start_time en,
                                           p_timeZone = dict_get (timeZone en) ''UTC''\<rparr>,
                              o365_body = None,
                              o365_location = None\<rparr>;
                         payload = (case description ev of
                                None \<Rightarrow> payload
                              | Some d \<Rightarrow>
                                  payload\<lparr>o365_body := Some \<lparr>contentType = ''text'', content = d\<rparr>\<rparr>);
                         payload = (case location ev of
                                None \<Rightarrow> payload
                              | Some l \<Rightarrow> payload\<lparr>o365_location := Some l\<rparr>)
                     in Inr (event_key, event_summary, payload)))))"

text \<open>
  \<^verbatim>\<open>needs_update\<close> (lines 370-376). Python's \<^verbatim>\<open>or\<close> and \<^verbatim>\<open>and\<close> stop at the first operand
  that decides, so a subscript that would raise is reached only when every operand
  before it was false. \<^verbatim>\<open>existing_event['start']['dateTime']\<close> is a string and the
  payload's \<^verbatim>\<open>dateTime\<close> a string or \<^verbatim>\<open>None\<close>: they are compared as \<open>Some s\<close> and the
  payload's value.
\<close>

definition existing_dateTime :: "string \<Rightarrow> time_obj option \<Rightarrow> py_error + string" where
  "existing_dateTime k t =
     (case t of
        None \<Rightarrow> Inl (KeyError k)
      | Some t' \<Rightarrow> (case dateTime t' of None \<Rightarrow> Inl (KeyError ''dateTime'') | Some d \<Rightarrow> Inr d))"

definition location_differs :: "existing_event \<Rightarrow> o365_event \<Rightarrow> py_error + bool" where
  "location_differs existing payload =
     (case o365_location payload of
        None \<Rightarrow> Inr False
      | Some l \<Rightarrow>
          (case existing_location existing of
             None \<Rightarrow> Inr True
           | Some xl \<Rightarrow>
               (case displayName xl of
                  None \<Rightarrow> Inl (KeyError ''displayName'')
                | Some d \<Rightarrow> Inr (d \<noteq> l))))"

definition needs_update :: "existing_event \<Rightarrow> string \<Rightarrow> o365_event \<Rightarrow> py_error + bool" where
  "needs_update existing event_summary payload =
     (case subject existing of
        None \<Rightarrow> Inl (KeyError ''subject'')
      | Some s \<Rightarrow>
          if s \<noteq> event_summary then Inr True
          else
            (case existing_dateTime ''start'' (ev_start existing) of
               Inl err \<Rightarrow> Inl err
             | Inr xs \<Rightarrow>
                 if Some xs \<noteq> p_dateTime (o365_start payload) then Inr True
                 else
                   (case existing_dateTime ''end'' (ev_end existing) of
                      Inl err \<Rightarrow> Inl err
                    | Inr xe \<Rightarrow>
                        if Some xe \<noteq> p_dateTime (o365_end payload) then Inr True
                        else location_differs existing payload)))"

text \<open>
  What the inner \<^verbatim>\<open>try\<close> (lines 366-395) decides before it calls the service: \<open>CREATE\<close> is
  the \<^verbatim>\<open>POST\<close> of the payload, \<open>UPDATE\<close> the \<^verbatim>\<open>PATCH\<close> to the URL that ends in
  \<^verbatim>\<open>existing_event['id']\<close>, \<open>SKIP\<close> the branch that only logs. \<open>Inl\<close> is a \<^verbatim>\<open>KeyError\<close>
  raised on the way, which the inner handler catches.
\<close>

datatype action = CREATE o365_event | UPDATE string o365_event | SKIP

definition reconcile ::
    "events_dict \<Rightarrow> string \<Rightarrow> string \<Rightarrow> o365_event \<Rightarrow> py_error + action" where
  "reconcile existing_events event_key event_summary payload =
     (case existing_events event_key of
        Some existing \<Rightarrow>
          (case needs_update existing event_summary payload of
             Inl err \<Rightarrow> Inl err
           | Inr True \<Rightarrow>
               (case ev_id existing of
                  None \<Rightarrow> Inl (KeyError ''id'')
                | Some i \<Rightarrow> Inr (UPDATE i payload))
           | Inr False \<Rightarrow> Inr SKIP)
      | None \<Rightarrow> Inr (CREATE payload))"

text \<open>
  The calls to the destination. The service is a parameter: \<open>respond history call\<close> is
  \<open>None\<close> when the call returns a success status, and \<open>Some err\<close> when \<^verbatim>\<open>session.post\<close>,
  \<^verbatim>\<open>session.patch\<close> or \<^verbatim>\<open>raise_for_status\<close> raises; \<open>history\<close> is the list of the calls
  made before, so that the answer may depend on anything that happened in the run.
\<close>

datatype write_call = POST o365_event | PATCH string o365_event

type_synonym service = "write_call list \<Rightarrow> write_call \<Rightarrow> py_error option"

record sync_state =
  calls :: "write_call list"
  logged :: "log_entry list"

definition send ::
    "service \<Rightarrow> write_call \<Rightarrow> log_entry \<Rightarrow> string \<Rightarrow> sync_state \<Rightarrow> sync_state" where
  "send respond call done event_summary s =
     (case respond (calls s) call of
        None \<Rightarrow> \<lparr>calls = calls s @ [call], logged = logged s @ [done]\<rparr>
      | Some err \<Rightarrow>
          \<lparr>calls = calls s @ [call],
           logged = logged s @ [Failed_to_sync event_summary err]\<rparr>)"

definition apply_action ::
    "service \<Rightarrow> string \<Rightarrow> py_error + action \<Rightarrow> sync_state \<Rightarrow> sync_state" where
  "apply_action respond event_summary decision s =
     (case decision of
        Inl err \<Rightarrow> s\<lparr>logged := logged s @ [Failed_to_sync event_summary err]\<rparr>
      | Inr SKIP \<Rightarrow> s\<lparr>logged := logged s @ [Event_unchanged event_summary]\<rparr>
      | Inr (UPDATE i payload) \<Rightarrow> send respond (PATCH i payload) (Updated_existing event_summary) event_summary s
      | Inr (CREATE payload) \<Rightarrow> send respond (POST payload) (Created_new event_summary) event_summary s)"

text \<open>One turn of the loop; \<open>Inl\<close> is an exception that leaves the loop.\<close>

definition sync_event ::
    "service \<Rightarrow> events_dict \<Rightarrow> google_event \<Rightarrow> sync_state \<Rightarrow> py_error + sync_state" where
  "sync_event respond existing_events ev s =
     (case format_event ev of
        Inl err \<Rightarrow> Inl err
      | Inr (event_key, event_summary, payload) \<Rightarrow>
          Inr (apply_action respond event_summary
                 (reconcile existing_events event_key event_summary payload) s))"

text \<open>
  The loop \<^verbatim>\<open>for event in events\<close>. The result is the state reached and the exception
  that ended the loop, if one did.
\<close>

fun sync_events ::
    "service \<Rightarrow> events_dict \<Rightarrow> google_event list \<Rightarrow> sync_state \<Rightarrow> sync_state \<times> py_error option" where
  "sync_events respond existing_events [] s = (s, None)"
| "sync_events respond existing_events (ev # evs) s =
     (case sync_event respond existing_events ev s of
        Inl err \<Rightarrow> (s, Some err)
      | Inr s' \<Rightarrow> sync_events respond existing_events evs s')"

text \<open>
  \<^verbatim>\<open>sync_calendars\<close> (lines 280-401). What the run finds outside the program:
  \<^item> \<open>google_list\<close>: the source read, \<open>Inl\<close> when it raises, else the member \<^verbatim>\<open>'items'\<close>;
  \<^item> \<open>access_token\<close>: the browser session, \<open>Inl\<close> when the driver raises;
  \<^item> \<open>o365_cookies\<close>: loading the stored cookies, \<open>Inl\<close> when that raises;
  \<^item> \<open>o365_read\<close>: the destination read, as \<open>get_existing_events\<close> takes it;
  \<^item> \<open>o365_write\<close>: the destination's answers to the writes.
  The outer handler logs the exception and raises it again: the result keeps the state
  and names the exception.
\<close>

record sync_env =
  google_list :: "py_error + google_event list option"
  access_token :: "py_error + string option"
  o365_cookies :: "py_error + unit"
  o365_read :: "py_error + existing_event list option"
  o365_write :: service

definition raised :: "log_entry list \<Rightarrow> py_error \<Rightarrow> sync_state \<times> py_error option" where
  "raised lg err = (\<lparr>calls = [], logged = lg @ [Error_during_sync err]\<rparr>, Some err)"

definition sync_calendars :: "sync_env \<Rightarrow> sync_state \<times> py_error option" where
  "sync_calendars env =
     (case google_list env of
        Inl err \<Rightarrow> raised [] err
      | Inr items \<Rightarrow>
          (let events = dict_get items [] in
           if events = [] then (\<lparr>calls = [], logged = [No_upcoming_events]\<rparr>, None)
           else
             (case access_token env of
                Inl err \<Rightarrow> raised [] err
              | Inr token \<Rightarrow>
                  (case o365_cookies env of
                     Inl FileNotFoundError \<Rightarrow>
                       raised [O365_session_not_found]
                         (Exception ''O365 session not found. Please authenticate first.'')
                   | Inl err \<Rightarrow> raised [] err
                   | Inr u \<Rightarrow>
                       (let (existing_events, line) = get_existing_events (o365_read env) in
                        case sync_events (o365_write env) existing_events events
                               \<lparr>calls = [], logged = [line]\<rparr> of
                          (s, None) \<Rightarrow> (s, None)
                        | (s, Some err) \<Rightarrow>
                            (s\<lparr>logged := logged s @ [Error_during_sync err]\<rparr>, Some err))))))"

section \<open>Vocabulary of the properties\<close>

text \<open>
  The call an action makes: a \<open>CREATE\<close> is one \<^verbatim>\<open>POST\<close>, an \<open>UPDATE\<close> one \<^verbatim>\<open>PATCH\<close>, a \<open>SKIP\<close>
  none.
\<close>

definition call_of :: "action \<Rightarrow> write_call option" where
  "call_of a = (case a of CREATE p \<Rightarrow> Some (POST p) | UPDATE i p \<Rightarrow> Some (PATCH i p) | SKIP \<Rightarrow> None)"

text \<open>
  The fields of a destination event that the update decision compares, \<open>None\<close> when the
  event does not have them.
\<close>

definition existing_start :: "existing_event \<Rightarrow> string option" where
  "existing_start x = (case ev_start x of None \<Rightarrow> None | Some t \<Rightarrow> dateTime t)"

definition existing_end :: "existing_event \<Rightarrow> string option" where
  "existing_end x = (case ev_end x of None \<Rightarrow> None | Some t \<Rightarrow> dateTime t)"

definition existing_displayName :: "existing_event \<Rightarrow> string option" where
  "existing_displayName x = (case existing_location x of None \<Rightarrow> None | Some l \<Rightarrow> displayName l)"

text \<open>
  A destination event as Graph returns it for the \<^verbatim>\<open>$select\<close> of the read: it has an id, a
  subject, a start and an end with a \<^verbatim>\<open>dateTime\<close>, and its location, when it has one, has
  a \<^verbatim>\<open>displayName\<close>.
\<close>

definition complete :: "existing_event \<Rightarrow> bool" where
  "complete x =
     (ev_id x \<noteq> None \<and> subject x \<noteq> None \<and> existing_start x \<noteq> None \<and> existing_end x \<noteq> None \<and>
      (case existing_location x of None \<Rightarrow> True | Some l \<Rightarrow> displayName l \<noteq> None))"

text \<open>
  The comparison as the specification words it: the title, the start timestamp, the end
  timestamp, or the location (compared only when the payload has one) differs from the
  destination event's.
\<close>

definition differs :: "existing_event \<Rightarrow> o365_event \<Rightarrow> bool" where
  "differs x p =
     (subject x \<noteq> Some (o365_subject p) \<or>
      existing_start x \<noteq> p_dateTime (o365_start p) \<or>
      existing_end x \<noteq> p_dateTime (o365_end p) \<or>
      (o365_location p \<noteq> None \<and> existing_displayName x \<noteq> o365_location p))"

text \<open>
  A destination event that reflects a payload written earlier: it has the payload's
  title, start \<^verbatim>\<open>dateTime\<close> and end \<^verbatim>\<open>dateTime\<close>, and the payload's location when the
  payload has one. A destination mapping reflects a source event when it holds such an
  event under the key the loop computes for the source event.
\<close>

definition reflects :: "existing_event \<Rightarrow> o365_event \<Rightarrow> bool" where
  "reflects x p =
     (subject x = Some (o365_subject p) \<and>
      existing_start x \<noteq> None \<and> existing_start x = p_dateTime (o365_start p) \<and>
      existing_end x \<noteq> None \<and> existing_end x = p_dateTime (o365_end p) \<and>
      (case o365_location p of None \<Rightarrow> True | Some l \<Rightarrow> existing_displayName x = Some l))"

definition synced :: "events_dict \<Rightarrow> google_event \<Rightarrow> bool" where
  "synced existing_events ev =
     (case format_event ev of
        Inl err \<Rightarrow> False
      | Inr (k, s, p) \<Rightarrow>
          (case existing_events k of None \<Rightarrow> False | Some x \<Rightarrow> reflects x p))"

text \<open>
  The decision of the loop for one source event: \<open>reconcile\<close> at the key, title and
  payload that \<open>format_event\<close> gives.
\<close>

definition decision :: "events_dict \<Rightarrow> google_event \<Rightarrow> py_error + action" where
  "decision existing_events ev =
     (case format_event ev of
        Inl err \<Rightarrow> Inl err
      | Inr (k, s, p) \<Rightarrow> reconcile existing_events k s p)"

text \<open>
  The destination read fails: an exception is raised inside the \<^verbatim>\<open>try\<close> of
  \<open>get_existing_events\<close>, by the request or while the dict is built.
\<close>

definition read_fails :: "py_error + existing_event list option \<Rightarrow> bool" where
  "read_fails response =
     (case response of
        Inl err \<Rightarrow> True
      | Inr v \<Rightarrow>
          (case build_events_dict (dict_get v []) Map.empty of
             Inl err \<Rightarrow> True
           | Inr events_dict \<Rightarrow> False))"

section \<open>Example data\<close>

text \<open>
  The scenario of the specification: the source event "Standup" with id \<^verbatim>\<open>g1\<close>, and the
  destination event that a sync of it leaves, with the id \<^verbatim>\<open>t1\<close> the destination gave it,
  stored under the source event's key.
\<close>

definition standup :: google_event where
  "standup =
     \<lparr>ev_id = Some ''g1'',
      ev_start = Some \<lparr>dateTime = Some ''2024-01-10T09:00Z'', date = None, timeZone = None\<rparr>,
      ev_end = Some \<lparr>dateTime = Some ''2024-01-10T09:30Z'', date = None, timeZone = None\<rparr>,
      summary = Some ''Standup'', description = None, location = None\<rparr>"

definition standup_payload :: o365_event where
  "standup_payload =
     \<lparr>o365_subject = ''Standup'',
      o365_start = \<lparr>p_dateTime = Some ''2024-01-10T09:00Z'', p_timeZone = ''UTC''\<rparr>,
      o365_end = \<lparr>p_dateTime = Some ''2024-01-10T09:30Z'', p_timeZone = ''UTC''\<rparr>,
      o365_body = None, o365_location = None\<rparr>"

definition standup_stored :: existing_event where
  "standup_stored =
     \<lparr>ev_id = Some ''t1'',
      ev_start = Some \<lparr>dateTime = Some ''2024-01-10T09:00Z'', date = None, timeZone = Some ''UTC''\<rparr>,
      ev_end = Some \<lparr>dateTime = Some ''2024-01-10T09:30Z'', date = None, timeZone = Some ''UTC''\<rparr>,
      subject = Some ''Standup'', body = None, existing_location = None\<rparr>"

definition destination :: events_dict where
  "destination = [''g1_2024-01-10T09:00Z'' \<mapsto> standup_stored]"

text \<open>
  A source event whose start and end dicts are empty; a service that accepts every call
  and one that refuses every call; the state in which the loop starts.
\<close>

definition untimed :: google_event where
  "untimed =
     \<lparr>ev_id = Some ''g2'',
      ev_start = Some \<lparr>dateTime = None, date = None, timeZone = None\<rparr>,
      ev_end = Some \<lparr>dateTime = None, date = None, timeZone = None\<rparr>,
      summary = Some ''Untimed'', description = None, location = None\<rparr>"

definition untimed_payload :: o365_event where
  "untimed_payload =
     \<lparr>o365_subject = ''Untimed'',
      o365_start = \<lparr>p_dateTime = None, p_timeZone = ''UTC''\<rparr>,
      o365_end = \<lparr>p_dateTime = None, p_timeZone = ''UTC''\<rparr>,
      o365_body = None, o365_location = None\<rparr>"

definition accepting :: service where
  "accepting history call = None"

definition rejecting :: service where
  "rejecting history call = Some HTTPError"

definition fresh :: sync_state where
  "fresh = \<lparr>calls = [], logged = []\<rparr>"

text \<open>
  The "Standup" event moved to the next day, and an all-day event with no title, a
  description and a location.
\<close>

definition moved :: google_event where
  "moved =
     standup\<lparr>ev_start :=
       Some \<lparr>dateTime = Some ''2024-01-11T09:00Z'', date = None, timeZone = None\<rparr>\<rparr>"

definition moved_payload :: o365_event where
  "moved_payload =
     standup_payload\<lparr>o365_start :=
       \<lparr>p_dateTime = Some ''2024-01-11T09:00Z'', p_timeZone = ''UTC''\<rparr>\<rparr>"

definition offsite :: google_event where
  "offsite =
     \<lparr>ev_id = Some ''g3'',
      ev_start = Some \<lparr>dateTime = None, date = Some ''2024-01-12'', timeZone = None\<rparr>,
      ev_end = Some \<lparr>dateTime = None, date = Some ''2024-01-13'',
                      timeZone = Some ''Europe/Paris''\<rparr>,
      summary = None, description = Some ''Bring a laptop'', location = Some ''Lyon''\<rparr>"

definition read_ok :: sync_env where
  "read_ok =
     \<lparr>google_list = Inr (Some [standup, offsite]),
      access_token = Inr (Some ''token''),
      o365_cookies = Inr (),
      o365_read = Inl HTTPError,
      o365_write = accepting\<rparr>"

text \<open>
  The "Standup" event with a room, a destination that reflects it, and a destination
  event with a body.
\<close>

definition standup_room :: google_event where
  "standup_room = standup\<lparr>location := Some ''Room 1''\<rparr>"

definition destination_room :: events_dict where
  "destination_room =
     [''g1_2024-01-10T09:00Z'' \<mapsto>
        standup_stored\<lparr>existing_location := Some \<lparr>displayName = Some ''Room 1''\<rparr>\<rparr>]"

definition old_notes :: item_body where
  "old_notes = \<lparr>contentType = ''text'', content = ''Old notes''\<rparr>"

section \<open>The two reads and their windows\<close>

text \<open>
  An instant is what \<^verbatim>\<open>datetime.utcnow()\<close> reads, counted in microseconds; \<open>days_30\<close> is
  \<^verbatim>\<open>timedelta(days=30)\<close>. \<open>Iso_Z t\<close> stands for the text \<^verbatim>\<open>t.isoformat() + 'Z'\<close>, which names
  the instant \<open>t\<close> and no other.
\<close>

definition days_30 :: int where
  "days_30 = 30 * 86400 * 1000000"

datatype iso_z = Iso_Z (instant_of: int)

text \<open>
  The source request of \<^verbatim>\<open>sync_calendars\<close> (lines 288-301), built from the clock reading
  \<open>now\<close> at the start of the run.
\<close>

record events_list_request =
  calendarId :: string
  timeMin :: iso_z
  timeMax :: iso_z
  maxResults :: nat
  singleEvents :: bool
  orderBy :: string

definition source_request :: "int \<Rightarrow> events_list_request" where
  "source_request now =
     \<lparr>calendarId = ''primary'',
      timeMin = Iso_Z now,
      timeMax = Iso_Z (now + days_30),
      maxResults = 250,
      singleEvents = True,
      orderBy = ''startTime''\<rparr>"

text \<open>
  The destination request of \<^verbatim>\<open>get_existing_events\<close> (lines 254-266), built from the
  clock reading \<open>now\<close> that \<^verbatim>\<open>get_existing_events\<close> takes itself. \<open>Start_ge_and_le a b\<close> is
  the filter text \<^verbatim>\<open>start/dateTime ge 'a' and start/dateTime le 'b'\<close>.
\<close>

datatype start_filter = Start_ge_and_le iso_z iso_z

record events_get_request =
  select_param :: string
  filter_param :: start_filter

definition destination_request :: "int \<Rightarrow> events_get_request" where
  "destination_request now =
     \<lparr>select_param = ''id,subject,start,end,body,location'',
      filter_param = Start_ge_and_le (Iso_Z now) (Iso_Z (now + days_30))\<rparr>"

text \<open>
  The readers, with the service they call as a parameter. The Source Reader's output is
  the list \<^verbatim>\<open>events\<close> of \<^verbatim>\<open>sync_calendars\<close>; the Target Reader's output is the dict that
  \<open>get_existing_events\<close> builds from the answer to its request. Neither filters what
  the service sent.
\<close>

definition source_reader :: "(events_list_request \<Rightarrow> google_event list) \<Rightarrow> int \<Rightarrow> google_event list" where
  "source_reader google now = google (source_request now)"

definition target_reader :: "(events_get_request \<Rightarrow> existing_event list) \<Rightarrow> int \<Rightarrow> events_dict" where
  "target_reader graph now = fst (get_existing_events (Inr (Some (graph (destination_request now)))))"

text \<open>
  A service applies the bounds of a request when every event it returns starts, by the
  service's reading \<open>starts\<close> of the event, between the two bounds, both included.
\<close>

definition google_applies_bounds ::
    "(google_event \<Rightarrow> int) \<Rightarrow> (events_list_request \<Rightarrow> google_event list) \<Rightarrow> bool" where
  "google_applies_bounds starts google =
     (\<forall>req. \<forall>e \<in> set (google req).
        instant_of (timeMin req) \<le> starts e \<and> starts e \<le> instant_of (timeMax req))"

definition graph_applies_bounds ::
    "(existing_event \<Rightarrow> int) \<Rightarrow> (events_get_request \<Rightarrow> existing_event list) \<Rightarrow> bool" where
  "graph_applies_bounds starts graph =
     (\<forall>req. \<forall>x \<in> set (graph req).
        (case filter_param req of
           Start_ge_and_le a b \<Rightarrow> instant_of a \<le> starts x \<and> starts x \<le> instant_of b))"

text \<open>
  Modelled from the spec: the two remote services, which are not code of the program,
  over a given calendar, as the specification describes their reads: the source
  returns the events that start within the bounds, ordered by start and capped at
  \<^verbatim>\<open>maxResults\<close>; the destination returns the events that start within the bounds of the
  filter.
\<close>

definition google_over ::
    "(google_event \<Rightarrow> int) \<Rightarrow> google_event list \<Rightarrow> events_list_request \<Rightarrow> google_event list" where
  "google_over starts calendar req =
     take (maxResults req)
       (sort_key starts
          (filter (\<lambda>e. instant_of (timeMin req) \<le> starts e \<and> starts e \<le> instant_of (timeMax req))
             calendar))"

definition graph_over ::
    "(existing_event \<Rightarrow> int) \<Rightarrow> existing_event list \<Rightarrow> events_get_request \<Rightarrow> existing_event list" where
  "graph_over starts calendar req =
     (case filter_param req of
        Start_ge_and_le a b \<Rightarrow>
          filter (\<lambda>x. instant_of a \<le> starts x \<and> starts x \<le> instant_of b) calendar)"

text \<open>
  Example: instants are counted from the clock reading at the start of the run. The
  events \<^verbatim>\<open>g1\<close> and \<^verbatim>\<open>t1\<close> start one hour later; the destination event \<^verbatim>\<open>t9\<close> starts half a
  second after the thirtieth day; every other event starts on the fortieth day.
\<close>

definition sample_starts :: "'a event_scheme \<Rightarrow> int" where
  "sample_starts e =
     (if ev_id e = Some ''g1'' then 3600000000
      else if ev_id e = Some ''t1'' then 3600000000
      else if ev_id e = Some ''t9'' then days_30 + 500000
      else 40 * 86400 * 1000000)"

definition far_event :: existing_event where
  "far_event =
     \<lparr>ev_id = Some ''t9'',
      ev_start = Some \<lparr>dateTime = Some ''2024-02-09T09:00:00.5000000'', date = None,
                        timeZone = Some ''UTC''\<rparr>,
      ev_end = Some \<lparr>dateTime = Some ''2024-02-09T10:00:00.0000000'', date = None,
                      timeZone = Some ''UTC''\<rparr>,
      subject = Some ''Review'', body = None, existing_location = None\<rparr>"

section \<open>Timestamps\<close>

text \<open>
  The start timestamp of an event is a date-time or an all-day date: a text of digits
  and the marks \<^verbatim>\<open>-\<close>, \<^verbatim>\<open>:\<close>, \<^verbatim>\<open>.\<close>, \<^verbatim>\<open>+\<close>, \<^verbatim>\<open>T\<close> and \<^verbatim>\<open>Z\<close>.
\<close>

definition timestamp_char :: "char \<Rightarrow> bool" where
  "timestamp_char c = (c \<in> set ''0123456789-:.+TZ'')"

definition is_timestamp :: "string \<Rightarrow> bool" where
  "is_timestamp s = (s \<noteq> [] \<and> list_all timestamp_char s)"

section \<open>Evaluation and helper lemmas\<close>

text \<open>The definitions of the loop body, for evaluating it on a given event.\<close>

lemmas model_defs =
  dict_get_def py_str_def start_time_def create_event_key_def format_event_def
  existing_dateTime_def location_differs_def needs_update_def reconcile_def
  send_def apply_action_def sync_event_def Let_def

lemma takeWhile_sep:
  "c \<notin> set ys \<Longrightarrow> takeWhile (\<lambda>x. x \<noteq> c) (rev (xs @ c # ys)) = rev ys"
  by (auto simp: takeWhile_tail takeWhile_eq_all_conv)

text \<open>Two texts joined by a separator that neither tail contains split in one way only.\<close>

lemma append_sep_eq:
  assumes "c \<notin> set ys" and "c \<notin> set ys'"
  shows "(xs @ c # ys = xs' @ c # ys') = (xs = xs' \<and> ys = ys')"
proof
  assume eq: "xs @ c # ys = xs' @ c # ys'"
  have "rev ys = takeWhile (\<lambda>x. x \<noteq> c) (rev (xs @ c # ys))"
    using takeWhile_sep [OF assms(1), of xs] by simp
  also have "\<dots> = takeWhile (\<lambda>x. x \<noteq> c) (rev (xs' @ c # ys'))"
    by (simp only: eq)
  also have "\<dots> = rev ys'"
    using takeWhile_sep [OF assms(2), of xs'] by simp
  finally have "ys = ys'" by simp
  with eq show "xs = xs' \<and> ys = ys'" by simp
next
  assume "xs = xs' \<and> ys = ys'"
  then show "xs @ c # ys = xs' @ c # ys'" by simp
qed

text \<open>An event with a start and an end is formatted, field by field as the loop does.\<close>

lemma format_event_Inr:
  "ev_start ev = Some st \<Longrightarrow> ev_end ev = Some en \<Longrightarrow>
   format_event ev =
     Inr (dict_get (ev_id ev) '''' @ ''_'' @ py_str (start_time st),
          dict_get (summary ev) ''No Title'',
          \<lparr>o365_subject = dict_get (summary ev) ''No Title'',
           o365_start = \<lparr>p_dateTime = start_time st, p_timeZone = dict_get (timeZone st) ''UTC''\<rparr>,
           o365_end = \<lparr>p_dateTime = start_time en, p_timeZone = dict_get (timeZone en) ''UTC''\<rparr>,
           o365_body = map_option (\<lambda>d. \<lparr>contentType = ''text'', content = d\<rparr>) (description ev),
           o365_location = location ev\<rparr>)"
  by (simp add: format_event_def create_event_key_def Let_def split: option.splits)

lemma format_event_InrD:
  "format_event ev = Inr (k, s, p) \<Longrightarrow> \<exists>st en. ev_start ev = Some st \<and> ev_end ev = Some en"
  by (auto simp: format_event_def create_event_key_def Let_def split: option.splits sum.splits if_splits)

lemma format_event_subject:
  assumes "format_event ev = Inr (k, s, p)"
  shows "s = o365_subject p \<and> s = dict_get (summary ev) ''No Title''"
proof -
  from assms obtain st en where "ev_start ev = Some st" and "ev_end ev = Some en"
    using format_event_InrD by blast
  from format_event_Inr [OF this] assms show ?thesis by simp
qed

text \<open>The decision on a destination event that reflects the payload, and on a complete one.\<close>

lemma reconcile_reflects:
  "existing k = Some x \<Longrightarrow> reflects x p \<Longrightarrow> reconcile existing k (o365_subject p) p = Inr SKIP"
  unfolding reconcile_def needs_update_def reflects_def existing_dateTime_def location_differs_def
    existing_start_def existing_end_def existing_displayName_def
  by (auto split: option.splits)

lemma reconcile_complete:
  "existing k = Some x \<Longrightarrow> complete x \<Longrightarrow> ev_id x = Some i \<Longrightarrow>
   reconcile existing k (o365_subject p) p = Inr (if differs x p then UPDATE i p else SKIP)"
  unfolding reconcile_def needs_update_def complete_def differs_def existing_dateTime_def
    location_differs_def existing_start_def existing_end_def existing_displayName_def
  by (auto split: option.splits)

lemma sync_event_synced:
  assumes "synced existing ev"
  shows "sync_event respond existing ev s =
           Inr (s\<lparr>logged := logged s @ [Event_unchanged (dict_get (summary ev) ''No Title'')]\<rparr>)"
proof -
  from assms obtain k t p x where fe: "format_event ev = Inr (k, t, p)"
    and ex: "existing k = Some x" and rf: "reflects x p"
    by (auto simp: synced_def split: sum.splits option.splits)
  from format_event_subject [OF fe]
  have t: "t = o365_subject p" "t = dict_get (summary ev) ''No Title''"
    by blast+
  from reconcile_reflects [of existing k x p] ex rf t
  have "reconcile existing k t p = Inr SKIP" by simp
  with fe t show ?thesis by (simp add: sync_event_def apply_action_def)
qed

text \<open>The decision is \<open>reconcile\<close> at what \<open>format_event\<close> returned.\<close>

lemma decision_eq:
  assumes "format_event ev = Inr (k, s, p)"
  shows "decision existing ev = reconcile existing k (o365_subject p) p"
  using assms format_event_subject [OF assms] by (simp add: decision_def)

text \<open>
  Changing the title, the end, the location or the description of a source event keeps
  its key and changes one field of its payload.
\<close>

lemma format_event_summary:
  assumes "format_event ev = Inr (k, s, p)"
  shows "format_event (ev\<lparr>summary := t\<rparr>) =
           Inr (k, dict_get t ''No Title'', p\<lparr>o365_subject := dict_get t ''No Title''\<rparr>)"
proof -
  from assms obtain st en where se: "ev_start ev = Some st" "ev_end ev = Some en"
    using format_event_InrD by blast
  then have "ev_start (ev\<lparr>summary := t\<rparr>) = Some st" "ev_end (ev\<lparr>summary := t\<rparr>) = Some en"
    by simp_all
  from format_event_Inr [OF this] format_event_Inr [OF se] assms show ?thesis by auto
qed

lemma format_event_end:
  assumes "format_event ev = Inr (k, s, p)"
  shows "format_event (ev\<lparr>ev_end := Some en'\<rparr>) =
           Inr (k, s, p\<lparr>o365_end := \<lparr>p_dateTime = start_time en',
                                      p_timeZone = dict_get (timeZone en') ''UTC''\<rparr>\<rparr>)"
proof -
  from assms obtain st en where se: "ev_start ev = Some st" "ev_end ev = Some en"
    using format_event_InrD by blast
  then have "ev_start (ev\<lparr>ev_end := Some en'\<rparr>) = Some st"
    "ev_end (ev\<lparr>ev_end := Some en'\<rparr>) = Some en'"
    by simp_all
  from format_event_Inr [OF this] format_event_Inr [OF se] assms show ?thesis by auto
qed

lemma format_event_location:
  assumes "format_event ev = Inr (k, s, p)"
  shows "format_event (ev\<lparr>location := l\<rparr>) = Inr (k, s, p\<lparr>o365_location := l\<rparr>)"
proof -
  from assms obtain st en where se: "ev_start ev = Some st" "ev_end ev = Some en"
    using format_event_InrD by blast
  then have "ev_start (ev\<lparr>location := l\<rparr>) = Some st" "ev_end (ev\<lparr>location := l\<rparr>) = Some en"
    by simp_all
  from format_event_Inr [OF this] format_event_Inr [OF se] assms show ?thesis by auto
qed

lemma format_event_description:
  assumes "format_event ev = Inr (k, s, p)"
  shows "format_event (ev\<lparr>description := d\<rparr>) =
           Inr (k, s, p\<lparr>o365_body :=
                          map_option (\<lambda>c. \<lparr>contentType = ''text'', content = c\<rparr>) d\<rparr>)"
proof -
  from assms obtain st en where se: "ev_start ev = Some st" "ev_end ev = Some en"
    using format_event_InrD by blast
  then have "ev_start (ev\<lparr>description := d\<rparr>) = Some st"
    "ev_end (ev\<lparr>description := d\<rparr>) = Some en"
    by simp_all
  from format_event_Inr [OF this] format_event_Inr [OF se] assms show ?thesis by auto
qed

text \<open>The comparison reads neither the destination's body nor the payload's.\<close>

lemma needs_update_body:
  "needs_update (x\<lparr>body := b\<rparr>) s (p\<lparr>o365_body := q\<rparr>) = needs_update x s p"
  by (simp add: needs_update_def location_differs_def split: option.splits sum.splits)

lemma reflects_body:
  "reflects (x\<lparr>body := b\<rparr>) (p\<lparr>o365_body := q\<rparr>) = reflects x p"
  by (simp add: reflects_def existing_start_def existing_end_def existing_displayName_def
      split: option.splits)

text \<open>A call is recorded whether the service accepts it or not.\<close>

lemma send_calls: "calls (send respond c line t s) = calls s @ [c]"
  by (simp add: send_def split: option.splits)

lemma apply_action_calls:
  "calls s1 = calls s2 \<Longrightarrow>
   calls (apply_action r1 t d s1) = calls (apply_action r2 t d s2)"
  by (simp add: apply_action_def send_calls split: sum.splits action.splits)

text \<open>The calls of the loop, and how it ends, do not depend on the service's answers.\<close>

lemma sync_events_calls:
  "calls s1 = calls s2 \<Longrightarrow>
   calls (fst (sync_events r1 ex evs s1)) = calls (fst (sync_events r2 ex evs s2)) \<and>
   snd (sync_events r1 ex evs s1) = snd (sync_events r2 ex evs s2)"
proof (induction evs arbitrary: s1 s2)
  case Nil
  then show ?case by simp
next
  case (Cons ev evs)
  show ?case
  proof (cases "format_event ev")
    case (Inl err)
    with Cons.prems show ?thesis by (simp add: sync_event_def)
  next
    case (Inr r)
    obtain k t p where r: "r = (k, t, p)" by (cases r)
    let ?d = "reconcile ex k t p"
    have "calls (apply_action r1 t ?d s1) = calls (apply_action r2 t ?d s2)"
      using Cons.prems by (rule apply_action_calls)
    from Cons.IH [OF this] Inr r show ?thesis by (simp add: sync_event_def)
  qed
qed

text \<open>With an empty destination mapping every event that can be formatted is created.\<close>

lemma sync_events_empty:
  assumes "\<forall>ev \<in> set events. ev_start ev \<noteq> None \<and> ev_end ev \<noteq> None"
  shows "\<exists>s' cs. sync_events respond Map.empty events s = (s', None) \<and>
           calls s' = calls s @ cs \<and>
           list_all2 (\<lambda>ev c. \<exists>p. decision Map.empty ev = Inr (CREATE p) \<and> c = POST p) events cs"
  using assms
proof (induction events arbitrary: s)
  case Nil
  then show ?case by simp
next
  case (Cons ev evs)
  from Cons.prems obtain st en where "ev_start ev = Some st" and "ev_end ev = Some en"
    by auto
  from format_event_Inr [OF this] obtain k t p where fe: "format_event ev = Inr (k, t, p)"
    by blast
  have d: "decision Map.empty ev = Inr (CREATE p)"
    by (simp add: decision_eq [OF fe] reconcile_def)
  let ?s = "apply_action respond t (reconcile Map.empty k t p) s"
  have c: "calls ?s = calls s @ [POST p]"
    by (simp add: reconcile_def apply_action_def send_calls)
  from Cons.prems have "\<forall>ev \<in> set evs. ev_start ev \<noteq> None \<and> ev_end ev \<noteq> None"
    by simp
  from Cons.IH [OF this, of ?s] obtain s' cs
    where r: "sync_events respond Map.empty evs ?s = (s', None)" "calls s' = calls ?s @ cs"
      "list_all2 (\<lambda>ev c. \<exists>p. decision Map.empty ev = Inr (CREATE p) \<and> c = POST p) evs cs"
    by blast
  have "sync_events respond Map.empty (ev # evs) s = (s', None)"
    using fe r(1) by (simp add: sync_event_def)
  moreover have "calls s' = calls s @ POST p # cs"
    using r(2) c by simp
  moreover have "list_all2 (\<lambda>ev c. \<exists>p. decision Map.empty ev = Inr (CREATE p) \<and> c = POST p)
                   (ev # evs) (POST p # cs)"
    using d r(3) by simp
  ultimately show ?case by blast
qed

lemma get_existing_events_fails:
  "read_fails response \<Longrightarrow> \<exists>err. get_existing_events response = (Map.empty, Error_retrieving err)"
  by (auto simp: read_fails_def get_existing_events_def split: sum.splits)

section \<open>C1: a second run over synced data only skips\<close>

text \<open>
  C1 (idempotence). When the destination mapping reflects every event of the source
  list (each is stored under the key the loop computes for it, with the same title,
  start \<^verbatim>\<open>dateTime\<close>, end \<^verbatim>\<open>dateTime\<close> and location), the loop over the list makes no call at
  all, whatever the service would answer: the calls of the state are unchanged, the log
  gains one "unchanged" line per event, and no exception ends the loop.
\<close>

theorem rerun_only_skips:
  assumes "\<forall>ev \<in> set events. synced existing ev"
  shows "sync_events respond existing events s =
           (s\<lparr>logged := logged s @
                 map (\<lambda>ev. Event_unchanged (dict_get (summary ev) ''No Title'')) events\<rparr>, None)"
  using assms
proof (induction events arbitrary: s)
  case Nil
  show ?case by simp
next
  case (Cons ev evs)
  from Cons.prems have "synced existing ev" and rest: "\<forall>ev \<in> set evs. synced existing ev"
    by simp_all
  from sync_event_synced [OF this(1)] Cons.IH [OF rest]
  show ?case by simp
qed

theorem rerun_only_skips_witness:
  "sync_events rejecting destination [standup, standup] fresh =
     (\<lparr>calls = [], logged = [Event_unchanged ''Standup'', Event_unchanged ''Standup'']\<rparr>, None)"
proof -
  have "\<forall>ev \<in> set [standup, standup]. synced destination ev"
    by (simp add: model_defs synced_def reflects_def existing_start_def existing_end_def
        standup_def standup_stored_def destination_def)
  from rerun_only_skips [OF this, of rejecting fresh] show ?thesis
    by (simp add: fresh_def standup_def dict_get_def)
qed

section \<open>C9: loading the configuration\<close>

text \<open>
  Where \<open>load_config\<close> does what is said of it: when the file is absent, and when it is
  read and fails to parse as JSON, it returns with both defaults the empty string; when
  the file parses to a JSON object, each default is the value under its key, or the
  empty string when the object has no such key.
\<close>

lemma load_config_fallback:
  "load_config Absent =
     Inr (\<lparr>gmail_email_default = JStr '''', o365_email_default = JStr ''''\<rparr>,
          No_configuration_file) \<and>
   load_config Corrupt =
     Inr (\<lparr>gmail_email_default = JStr '''', o365_email_default = JStr ''''\<rparr>,
          Error_reading_config) \<and>
   load_config (Parsed (JObj members)) =
     Inr (\<lparr>gmail_email_default =
             (case map_of members ''gmail_email'' of None \<Rightarrow> JStr '''' | Some v \<Rightarrow> v),
           o365_email_default =
             (case map_of members ''o365_email'' of None \<Rightarrow> JStr '''' | Some v \<Rightarrow> v)\<rparr>,
          Configuration_loaded)"
  by (simp add: load_config_def json_get_def dict_get_def)

text \<open>
  C9 (configuration fallback), where the code departs from it. The fallback to empty
  defaults is the handler of \<^verbatim>\<open>json.JSONDecodeError\<close> alone, although the \<^verbatim>\<open>try\<close> holds the
  \<^verbatim>\<open>open\<close> and the two \<^verbatim>\<open>config.get\<close> as well: a file that exists and cannot be opened,
  and a file whose JSON document is not an object (here the empty array), raise out of
  \<open>load_config\<close> and no default is set.
\<close>

theorem load_config_raises:
  "load_config Unreadable = Inl OSError \<and> load_config (Parsed (JArr [])) = Inl AttributeError"
  by (simp add: load_config_def json_get_def)

section \<open>C3: the event key\<close>

text \<open>
  The key of an event that has a start, and when two keys are equal: exactly when ids
  and start timestamps are, provided the two events agree on one of them or neither
  start timestamp has an underscore in it.
\<close>

lemma key_equality:
  fixes e1 :: "'a event_scheme" and e2 :: "'b event_scheme"
  assumes "ev_start e1 = Some s1" and "ev_start e2 = Some s2"
    and "(CHR ''_'' \<notin> set (py_str (start_time s1)) \<and> CHR ''_'' \<notin> set (py_str (start_time s2)))
         \<or> dict_get (ev_id e1) '''' = dict_get (ev_id e2) ''''
         \<or> py_str (start_time s1) = py_str (start_time s2)"
  shows "create_event_key e1 g1 = Inr (dict_get (ev_id e1) '''' @ ''_'' @ py_str (start_time s1)) \<and>
         ((create_event_key e1 g1 = create_event_key e2 g2) =
          (dict_get (ev_id e1) '''' = dict_get (ev_id e2) '''' \<and>
           py_str (start_time s1) = py_str (start_time s2)))"
proof -
  have k1: "create_event_key e1 g1 = Inr (dict_get (ev_id e1) '''' @ ''_'' @ py_str (start_time s1))"
    using assms(1) by (simp add: create_event_key_def)
  have k2: "create_event_key e2 g2 = Inr (dict_get (ev_id e2) '''' @ ''_'' @ py_str (start_time s2))"
    using assms(2) by (simp add: create_event_key_def)
  from assms(3)
  have "(dict_get (ev_id e1) '''' @ CHR ''_'' # py_str (start_time s1) =
         dict_get (ev_id e2) '''' @ CHR ''_'' # py_str (start_time s2)) =
        (dict_get (ev_id e1) '''' = dict_get (ev_id e2) '''' \<and>
         py_str (start_time s1) = py_str (start_time s2))"
    by (auto simp: append_sep_eq)
  with k1 k2 show ?thesis by simp
qed

lemma timestamp_no_underscore: "is_timestamp t \<Longrightarrow> CHR ''_'' \<notin> set t"
  by (auto simp: is_timestamp_def timestamp_char_def list_all_iff)

text \<open>
  C3 (key stability). For events whose start timestamp (\<^verbatim>\<open>dateTime\<close>, else \<^verbatim>\<open>date\<close>) is a
  date-time or a date, the key is the remote id (as the code reads it: the empty text
  when the event has none), an underscore and the start timestamp, whatever \<^verbatim>\<open>is_google\<close>
  is; and two such events have unequal keys as soon as their remote ids differ or
  their start timestamps differ.
\<close>

theorem key_stability:
  fixes e1 :: "'a event_scheme" and e2 :: "'b event_scheme"
  assumes "ev_start e1 = Some s1" and "start_time s1 = Some t1" and "is_timestamp t1"
    and "ev_start e2 = Some s2" and "start_time s2 = Some t2" and "is_timestamp t2"
  shows "create_event_key e1 g1 = Inr (dict_get (ev_id e1) '''' @ ''_'' @ t1) \<and>
         (dict_get (ev_id e1) '''' \<noteq> dict_get (ev_id e2) '''' \<or> t1 \<noteq> t2 \<longrightarrow>
            create_event_key e1 g1 \<noteq> create_event_key e2 g2)"
proof -
  have "CHR ''_'' \<notin> set (py_str (start_time s1)) \<and> CHR ''_'' \<notin> set (py_str (start_time s2))"
    using assms(2,3,5,6) by (simp add: py_str_def timestamp_no_underscore)
  then have "(CHR ''_'' \<notin> set (py_str (start_time s1)) \<and> CHR ''_'' \<notin> set (py_str (start_time s2)))
         \<or> dict_get (ev_id e1) '''' = dict_get (ev_id e2) ''''
         \<or> py_str (start_time s1) = py_str (start_time s2)"
    by blast
  from key_equality [OF assms(1) assms(4) this, of g1 g2] assms(2,5)
  show ?thesis by (auto simp: py_str_def)
qed

theorem key_stability_witness:
  "create_event_key standup True = Inr ''g1_2024-01-10T09:00Z'' \<and>
   create_event_key standup True \<noteq> create_event_key standup_stored False \<and>
   create_event_key standup True \<noteq> create_event_key moved True"
proof -
  have 1: "ev_start standup =
             Some \<lparr>dateTime = Some ''2024-01-10T09:00Z'', date = None, timeZone = None\<rparr>"
    by (simp add: standup_def)
  have 2: "ev_start standup_stored =
             Some \<lparr>dateTime = Some ''2024-01-10T09:00Z'', date = None, timeZone = Some ''UTC''\<rparr>"
    by (simp add: standup_stored_def)
  have 3: "ev_start moved =
             Some \<lparr>dateTime = Some ''2024-01-11T09:00Z'', date = None, timeZone = None\<rparr>"
    by (simp add: moved_def standup_def)
  have t1: "start_time \<lparr>dateTime = Some ''2024-01-10T09:00Z'', date = None, timeZone = None\<rparr> =
              Some ''2024-01-10T09:00Z''"
    and t2: "start_time \<lparr>dateTime = Some ''2024-01-10T09:00Z'', date = None,
                          timeZone = Some ''UTC''\<rparr> = Some ''2024-01-10T09:00Z''"
    and t3: "start_time \<lparr>dateTime = Some ''2024-01-11T09:00Z'', date = None, timeZone = None\<rparr> =
              Some ''2024-01-11T09:00Z''"
    by (simp_all add: start_time_def)
  have ts: "is_timestamp ''2024-01-10T09:00Z''" "is_timestamp ''2024-01-11T09:00Z''"
    by (simp_all add: is_timestamp_def timestamp_char_def)
  have ids: "ev_id standup = Some ''g1''" "ev_id standup_stored = Some ''t1''"
    "ev_id moved = Some ''g1''"
    by (simp_all add: standup_def standup_stored_def moved_def)
  from key_stability [OF 1 t1 ts(1) 2 t2 ts(1), of True False]
    key_stability [OF 1 t1 ts(1) 3 t3 ts(2), of True True]
  show ?thesis
    by (auto simp: dict_get_def ids)
qed

section \<open>C4: the payload\<close>

text \<open>
  C4 (payload construction). A source event that has a start and an end is formatted:
  the payload's subject is the title, or \<^verbatim>\<open>No Title\<close> when the event has none; its start
  and end hold the timestamp of the source's start and end and their time zone, or
  \<^verbatim>\<open>UTC\<close> when the source names none; it has a body, of content type \<^verbatim>\<open>text\<close> and the
  description as content, exactly when the source has a description; it has a location,
  the source's as display name, exactly when the source has a location.
\<close>

theorem payload_construction:
  assumes "ev_start ev = Some st" and "ev_end ev = Some en"
  shows "\<exists>k s p. format_event ev = Inr (k, s, p) \<and>
           o365_subject p = (case summary ev of None \<Rightarrow> ''No Title'' | Some t \<Rightarrow> t) \<and>
           o365_start p =
             \<lparr>p_dateTime = start_time st,
              p_timeZone = (case timeZone st of None \<Rightarrow> ''UTC'' | Some z \<Rightarrow> z)\<rparr> \<and>
           o365_end p =
             \<lparr>p_dateTime = start_time en,
              p_timeZone = (case timeZone en of None \<Rightarrow> ''UTC'' | Some z \<Rightarrow> z)\<rparr> \<and>
           o365_body p =
             (case description ev of
                None \<Rightarrow> None
              | Some d \<Rightarrow> Some \<lparr>contentType = ''text'', content = d\<rparr>) \<and>
           o365_location p = location ev"
  using format_event_Inr [OF assms]
  by (simp add: dict_get_def split: option.splits)

theorem payload_construction_witness:
  "\<exists>k s p. format_event offsite = Inr (k, s, p) \<and>
     o365_subject p = ''No Title'' \<and>
     o365_start p = \<lparr>p_dateTime = Some ''2024-01-12'', p_timeZone = ''UTC''\<rparr> \<and>
     o365_end p = \<lparr>p_dateTime = Some ''2024-01-13'', p_timeZone = ''Europe/Paris''\<rparr> \<and>
     o365_body p = Some \<lparr>contentType = ''text'', content = ''Bring a laptop''\<rparr> \<and>
     o365_location p = Some ''Lyon''"
proof -
  have 1: "ev_start offsite = Some \<lparr>dateTime = None, date = Some ''2024-01-12'', timeZone = None\<rparr>"
    by (simp add: offsite_def)
  have 2: "ev_end offsite =
             Some \<lparr>dateTime = None, date = Some ''2024-01-13'', timeZone = Some ''Europe/Paris''\<rparr>"
    by (simp add: offsite_def)
  have fields: "summary offsite = None" "description offsite = Some ''Bring a laptop''"
    "location offsite = Some ''Lyon''"
    by (simp_all add: offsite_def)
  from payload_construction [OF 1 2] show ?thesis
    by (simp add: start_time_def fields)
qed

section \<open>C2: create, update or skip\<close>

text \<open>
  C2, as the claim states it, fails in its last part. The destination reflects the
  "Standup" event, which is skipped; when the source event moves to another start, its
  key changes with it, the new key is not in the mapping, and the event is created, not
  updated. And when a source event that was synced with a location loses it, the
  payload has no location to compare and the event is skipped.
\<close>

theorem moved_event_is_created:
  "decision destination standup = Inr SKIP \<and>
   decision destination moved = Inr (CREATE moved_payload) \<and>
   decision destination_room standup_room = Inr SKIP \<and>
   decision destination_room (standup_room\<lparr>location := None\<rparr>) = Inr SKIP"
  by (simp add: model_defs decision_def standup_def standup_payload_def standup_stored_def
      destination_def moved_def moved_payload_def standup_room_def destination_room_def)

text \<open>
  C2, amended. For a source event with key \<open>k\<close>, title \<open>s\<close> and payload \<open>p\<close>:
  \<^item> when \<open>k\<close> is not in the destination mapping the action is \<open>CREATE\<close> with \<open>p\<close>;
  \<^item> when \<open>k\<close> holds a complete destination event with id \<open>i\<close>, the action is \<open>UPDATE\<close>,
    addressed to \<open>i\<close> with \<open>p\<close>, exactly when title, start timestamp, end timestamp or
    location (compared only when \<open>p\<close> has one) differ, and \<open>SKIP\<close> otherwise;
  \<^item> when that destination event reflects \<open>p\<close>, a change of the source's title, of its end
    timestamp, or of its location to one that the destination event does not have,
    leaves the key as it is and gives \<open>UPDATE\<close>, addressed to \<open>i\<close>, with the payload of the
    changed event.
  A change of the start timestamp changes the key: the lookup is then made under the
  new key.
\<close>

theorem decision_rule:
  assumes fe: "format_event ev = Inr (k, s, p)"
  shows "(existing k = None \<longrightarrow> decision existing ev = Inr (CREATE p)) \<and>
         (\<forall>x i. existing k = Some x \<and> complete x \<and> ev_id x = Some i \<longrightarrow>
            decision existing ev = Inr (if differs x p then UPDATE i p else SKIP)) \<and>
         (\<forall>x i. existing k = Some x \<and> complete x \<and> ev_id x = Some i \<and> reflects x p \<longrightarrow>
            (\<forall>t. dict_get t ''No Title'' \<noteq> s \<longrightarrow>
               decision existing (ev\<lparr>summary := t\<rparr>) =
                 Inr (UPDATE i (p\<lparr>o365_subject := dict_get t ''No Title''\<rparr>))) \<and>
            (\<forall>en. start_time en \<noteq> p_dateTime (o365_end p) \<longrightarrow>
               decision existing (ev\<lparr>ev_end := Some en\<rparr>) =
                 Inr (UPDATE i (p\<lparr>o365_end := \<lparr>p_dateTime = start_time en,
                                               p_timeZone = dict_get (timeZone en) ''UTC''\<rparr>\<rparr>))) \<and>
            (\<forall>l. existing_displayName x \<noteq> Some l \<longrightarrow>
               decision existing (ev\<lparr>location := Some l\<rparr>) =
                 Inr (UPDATE i (p\<lparr>o365_location := Some l\<rparr>))))"
proof (intro conjI allI impI)
  assume "existing k = None"
  then show "decision existing ev = Inr (CREATE p)"
    by (simp add: decision_eq [OF fe] reconcile_def)
next
  fix x i
  assume "existing k = Some x \<and> complete x \<and> ev_id x = Some i"
  then show "decision existing ev = Inr (if differs x p then UPDATE i p else SKIP)"
    by (simp add: decision_eq [OF fe] reconcile_complete)
next
  fix x i t
  assume h: "existing k = Some x \<and> complete x \<and> ev_id x = Some i \<and> reflects x p"
    and t: "dict_get t ''No Title'' \<noteq> s"
  let ?p = "p\<lparr>o365_subject := dict_get t ''No Title''\<rparr>"
  from format_event_subject [OF fe] h t have "differs x ?p"
    by (auto simp: differs_def reflects_def)
  with h show "decision existing (ev\<lparr>summary := t\<rparr>) = Inr (UPDATE i ?p)"
    using reconcile_complete [of existing k x i ?p]
    by (simp add: decision_eq [OF format_event_summary [OF fe]])
next
  fix x i en
  assume h: "existing k = Some x \<and> complete x \<and> ev_id x = Some i \<and> reflects x p"
    and t: "start_time en \<noteq> p_dateTime (o365_end p)"
  let ?p = "p\<lparr>o365_end := \<lparr>p_dateTime = start_time en,
                             p_timeZone = dict_get (timeZone en) ''UTC''\<rparr>\<rparr>"
  from h t have "differs x ?p"
    by (auto simp: differs_def reflects_def)
  with h show "decision existing (ev\<lparr>ev_end := Some en\<rparr>) = Inr (UPDATE i ?p)"
    using reconcile_complete [of existing k x i ?p]
    by (simp add: decision_eq [OF format_event_end [OF fe]])
next
  fix x i l
  assume h: "existing k = Some x \<and> complete x \<and> ev_id x = Some i \<and> reflects x p"
    and t: "existing_displayName x \<noteq> Some l"
  let ?p = "p\<lparr>o365_location := Some l\<rparr>"
  from h t have "differs x ?p"
    by (auto simp: differs_def reflects_def)
  with h show "decision existing (ev\<lparr>location := Some l\<rparr>) = Inr (UPDATE i ?p)"
    using reconcile_complete [of existing k x i ?p]
    by (simp add: decision_eq [OF format_event_location [OF fe]])
qed

theorem decision_rule_witness:
  "decision Map.empty standup = Inr (CREATE standup_payload) \<and>
   decision destination standup = Inr SKIP \<and>
   decision destination (standup\<lparr>summary := Some ''Standup (remote)''\<rparr>) =
     Inr (UPDATE ''t1'' (standup_payload\<lparr>o365_subject := ''Standup (remote)''\<rparr>)) \<and>
   decision destination (standup\<lparr>location := Some ''Room 1''\<rparr>) =
     Inr (UPDATE ''t1'' (standup_payload\<lparr>o365_location := Some ''Room 1''\<rparr>))"
proof -
  have fe: "format_event standup = Inr (''g1_2024-01-10T09:00Z'', ''Standup'', standup_payload)"
    by (simp add: model_defs standup_def standup_payload_def)
  have x: "destination ''g1_2024-01-10T09:00Z'' = Some standup_stored \<and> complete standup_stored \<and>
           ev_id standup_stored = Some ''t1''"
    by (simp add: complete_def existing_start_def existing_end_def destination_def
        standup_stored_def)
  have r: "reflects standup_stored standup_payload" "\<not> differs standup_stored standup_payload"
    "existing_displayName standup_stored \<noteq> Some ''Room 1''"
    by (simp_all add: reflects_def differs_def existing_start_def existing_end_def
        existing_displayName_def standup_stored_def standup_payload_def)
  note rule = decision_rule [OF fe]
  from rule [where existing = Map.empty]
  have 1: "decision Map.empty standup = Inr (CREATE standup_payload)"
    by simp
  from rule [where existing = destination] x r(2)
  have 2: "decision destination standup = Inr SKIP"
    by auto
  from rule [where existing = destination] x r(1)
  have 3: "decision destination (standup\<lparr>summary := Some ''Standup (remote)''\<rparr>) =
             Inr (UPDATE ''t1'' (standup_payload\<lparr>o365_subject := ''Standup (remote)''\<rparr>))"
    by (auto simp: dict_get_def)
  from rule [where existing = destination] x r(1) r(3)
  have 4: "decision destination (standup\<lparr>location := Some ''Room 1''\<rparr>) =
             Inr (UPDATE ''t1'' (standup_payload\<lparr>o365_location := Some ''Room 1''\<rparr>))"
    by auto
  from 1 2 3 4 show ?thesis by simp
qed

section \<open>C10: the description never triggers an update\<close>

text \<open>
  C10. When the key of a source event is in the destination mapping and the destination
  event has the payload's title, start \<^verbatim>\<open>dateTime\<close>, end \<^verbatim>\<open>dateTime\<close> and (when the payload
  has one) location, then whatever description \<open>d\<close> the source event has and whatever body
  \<open>b\<close> the destination event has, the decision is \<open>SKIP\<close> and the loop makes no call; and
  \<open>needs_update\<close> gives the same answer for any two bodies.
\<close>

theorem description_ignored:
  assumes fe: "format_event ev = Inr (k, s, p)" and ex: "existing k = Some x"
    and rf: "reflects x p"
  shows "decision (existing(k \<mapsto> x\<lparr>body := b\<rparr>)) (ev\<lparr>description := d\<rparr>) = Inr SKIP \<and>
         sync_events respond (existing(k \<mapsto> x\<lparr>body := b\<rparr>)) [ev\<lparr>description := d\<rparr>] st =
           (st\<lparr>logged := logged st @ [Event_unchanged s]\<rparr>, None) \<and>
         needs_update (x\<lparr>body := b\<rparr>) s (p\<lparr>o365_body := q\<rparr>) = needs_update x s p"
proof -
  let ?ex = "existing(k \<mapsto> x\<lparr>body := b\<rparr>)"
  let ?ev = "ev\<lparr>description := d\<rparr>"
  let ?p = "p\<lparr>o365_body := map_option (\<lambda>c. \<lparr>contentType = ''text'', content = c\<rparr>) d\<rparr>"
  have fe': "format_event ?ev = Inr (k, s, ?p)"
    by (rule format_event_description [OF fe])
  have sy: "synced ?ex ?ev"
    using rf by (simp add: synced_def fe' reflects_body)
  have s: "s = dict_get (summary ?ev) ''No Title''"
    using format_event_subject [OF fe'] by blast
  have "reconcile ?ex k (o365_subject ?p) ?p = Inr SKIP"
    using rf by (intro reconcile_reflects [where x = "x\<lparr>body := b\<rparr>"]) (simp_all add: reflects_body)
  then have 1: "decision ?ex ?ev = Inr SKIP"
    by (simp add: decision_eq [OF fe'])
  have 2: "sync_events respond ?ex [?ev] st = (st\<lparr>logged := logged st @ [Event_unchanged s]\<rparr>, None)"
    using sync_event_synced [OF sy, of respond st] s by simp
  from 1 2 show ?thesis by (simp add: needs_update_body)
qed

theorem description_ignored_witness:
  "decision (destination(''g1_2024-01-10T09:00Z'' \<mapsto> standup_stored\<lparr>body := Some old_notes\<rparr>))
     (standup\<lparr>description := Some ''New notes''\<rparr>) = Inr SKIP \<and>
   sync_events rejecting
     (destination(''g1_2024-01-10T09:00Z'' \<mapsto> standup_stored\<lparr>body := Some old_notes\<rparr>))
     [standup\<lparr>description := Some ''New notes''\<rparr>] fresh =
     (\<lparr>calls = [], logged = [Event_unchanged ''Standup'']\<rparr>, None)"
proof -
  have fe: "format_event standup = Inr (''g1_2024-01-10T09:00Z'', ''Standup'', standup_payload)"
    by (simp add: model_defs standup_def standup_payload_def)
  have ex: "destination ''g1_2024-01-10T09:00Z'' = Some standup_stored"
    by (simp add: destination_def)
  have rf: "reflects standup_stored standup_payload"
    by (simp add: reflects_def existing_start_def existing_end_def standup_stored_def
        standup_payload_def)
  from description_ignored [where existing = destination and x = standup_stored
      and b = "Some old_notes" and d = "Some ''New notes''" and respond = rejecting
      and st = fresh, OF fe ex rf]
  show ?thesis by (simp add: fresh_def)
qed

section \<open>C5: a destination read that fails\<close>

text \<open>
  C5 (graceful destination-read failure). In a run that reaches the destination read
  (the source read returned events, the browser session and the stored cookies were
  there) with source events that all have a start and an end: when the destination
  read fails, \<open>get_existing_events\<close> returns the empty mapping, every source event is
  decided \<open>CREATE\<close> and its payload is posted, in order, and the run ends with no
  exception.
\<close>

theorem destination_read_failure:
  assumes "google_list env = Inr (Some events)" and "events \<noteq> []"
    and "access_token env = Inr token" and "o365_cookies env = Inr ()"
    and "read_fails (o365_read env)"
    and "\<forall>ev \<in> set events. ev_start ev \<noteq> None \<and> ev_end ev \<noteq> None"
  shows "fst (get_existing_events (o365_read env)) = Map.empty \<and>
         snd (sync_calendars env) = None \<and>
         list_all2 (\<lambda>ev c. \<exists>p. decision Map.empty ev = Inr (CREATE p) \<and> c = POST p)
           events (calls (fst (sync_calendars env)))"
proof -
  from get_existing_events_fails [OF assms(5)] obtain err
    where g: "get_existing_events (o365_read env) = (Map.empty, Error_retrieving err)"
    by blast
  let ?s = "\<lparr>calls = [], logged = [Error_retrieving err]\<rparr>"
  from sync_events_empty [OF assms(6), of "o365_write env" ?s] obtain s' cs
    where r: "sync_events (o365_write env) Map.empty events ?s = (s', None)"
      "calls s' = calls ?s @ cs"
      "list_all2 (\<lambda>ev c. \<exists>p. decision Map.empty ev = Inr (CREATE p) \<and> c = POST p) events cs"
    by blast
  have "sync_calendars env = (s', None)"
    using assms(1-4) g r(1) by (simp add: sync_calendars_def dict_get_def)
  with g r(2,3) show ?thesis by simp
qed

theorem destination_read_failure_witness:
  "fst (get_existing_events (o365_read read_ok)) = Map.empty \<and>
   snd (sync_calendars read_ok) = None \<and>
   list_all2 (\<lambda>ev c. \<exists>p. decision Map.empty ev = Inr (CREATE p) \<and> c = POST p)
     [standup, offsite] (calls (fst (sync_calendars read_ok)))"
proof -
  have 1: "google_list read_ok = Inr (Some [standup, offsite])"
    and 2: "[standup, offsite] \<noteq> []"
    and 3: "access_token read_ok = Inr (Some ''token'')"
    and 4: "o365_cookies read_ok = Inr ()"
    and 5: "read_fails (o365_read read_ok)"
    and 6: "\<forall>ev \<in> set [standup, offsite]. ev_start ev \<noteq> None \<and> ev_end ev \<noteq> None"
    by (simp_all add: read_ok_def read_fails_def standup_def offsite_def)
  from destination_read_failure [OF 1 2 3 4 5 6] show ?thesis .
qed

section \<open>C6: an event with neither \<open>dateTime\<close> nor \<open>date\<close>\<close>

text \<open>
  C6, as the claim states it, fails: a source event whose start and end carry neither
  \<^verbatim>\<open>dateTime\<close> nor \<^verbatim>\<open>date\<close> is not set aside. With an empty destination its payload
  is posted with null timestamps: when the service accepts the call the log says the
  event was created, and when the service refuses it the call has been made all the
  same.
\<close>

theorem untimed_event_is_created:
  "sync_events accepting Map.empty [untimed, standup] fresh =
     (\<lparr>calls = [POST untimed_payload, POST standup_payload],
       logged = [Created_new ''Untimed'', Created_new ''Standup'']\<rparr>, None) \<and>
   sync_events rejecting Map.empty [untimed, standup] fresh =
     (\<lparr>calls = [POST untimed_payload, POST standup_payload],
       logged = [Failed_to_sync ''Untimed'' HTTPError, Failed_to_sync ''Standup'' HTTPError]\<rparr>,
      None)"
  by (simp add: model_defs untimed_def untimed_payload_def standup_def standup_payload_def
      accepting_def rejecting_def fresh_def)

text \<open>
  C6, amended. A source event whose start or end is there and carries neither
  \<^verbatim>\<open>dateTime\<close> nor \<^verbatim>\<open>date\<close> does not fail: it is formatted with the missing timestamp null
  (in the key, the text \<^verbatim>\<open>None\<close>) and decided like any other event, \<open>CREATE\<close> when its key
  is not in the destination mapping and \<open>UPDATE\<close> when the key holds a complete
  destination event; the loop then goes on with the events after it.
\<close>

theorem untimed_event_policy:
  assumes "ev_start ev = Some st" and "ev_end ev = Some en"
    and "start_time st = None \<or> start_time en = None"
  shows "\<exists>k p. format_event ev = Inr (k, dict_get (summary ev) ''No Title'', p) \<and>
           k = dict_get (ev_id ev) '''' @ ''_'' @ py_str (start_time st) \<and>
           p_dateTime (o365_start p) = start_time st \<and>
           p_dateTime (o365_end p) = start_time en \<and>
           (existing k = None \<longrightarrow> decision existing ev = Inr (CREATE p)) \<and>
           (\<forall>x i. existing k = Some x \<and> complete x \<and> ev_id x = Some i \<longrightarrow>
              decision existing ev = Inr (UPDATE i p)) \<and>
           sync_events respond existing (ev # evs) s =
             sync_events respond existing evs
               (apply_action respond (dict_get (summary ev) ''No Title'') (decision existing ev) s)"
proof -
  let ?k = "dict_get (ev_id ev) '''' @ ''_'' @ py_str (start_time st)"
  let ?t = "dict_get (summary ev) ''No Title''"
  from format_event_Inr [OF assms(1,2)] obtain p
    where fe: "format_event ev = Inr (?k, ?t, p)"
      and ps: "p_dateTime (o365_start p) = start_time st"
      and pe: "p_dateTime (o365_end p) = start_time en"
    by simp
  have d: "decision existing ev = reconcile existing ?k ?t p"
    using fe by (simp add: decision_def)
  have 1: "existing ?k = None \<longrightarrow> decision existing ev = Inr (CREATE p)"
    by (simp add: decision_eq [OF fe] reconcile_def)
  have 2: "\<forall>x i. existing ?k = Some x \<and> complete x \<and> ev_id x = Some i \<longrightarrow>
             decision existing ev = Inr (UPDATE i p)"
  proof (intro allI impI)
    fix x i
    assume h: "existing ?k = Some x \<and> complete x \<and> ev_id x = Some i"
    with assms(3) ps pe have "differs x p"
      by (auto simp: differs_def complete_def)
    with h show "decision existing ev = Inr (UPDATE i p)"
      using reconcile_complete [of existing ?k x i p] by (simp add: decision_eq [OF fe])
  qed
  have 3: "sync_events respond existing (ev # evs) s =
             sync_events respond existing evs (apply_action respond ?t (decision existing ev) s)"
    using fe d by (simp add: sync_event_def)
  show ?thesis
    by (rule exI [of _ ?k], rule exI [of _ p]) (intro conjI refl fe ps pe 1 2 3)
qed

theorem untimed_event_policy_witness:
  "\<exists>k p. format_event untimed = Inr (k, ''Untimed'', p) \<and>
     k = ''g2_None'' \<and>
     p_dateTime (o365_start p) = None \<and>
     p_dateTime (o365_end p) = None \<and>
     decision Map.empty untimed = Inr (CREATE p) \<and>
     sync_events accepting Map.empty [untimed, standup] fresh =
       sync_events accepting Map.empty [standup]
         (apply_action accepting ''Untimed'' (decision Map.empty untimed) fresh)"
proof -
  have 1: "ev_start untimed = Some \<lparr>dateTime = None, date = None, timeZone = None\<rparr>"
    and 2: "ev_end untimed = Some \<lparr>dateTime = None, date = None, timeZone = None\<rparr>"
    and 3: "start_time \<lparr>dateTime = None, date = None, timeZone = None\<rparr> = None \<or>
            start_time \<lparr>dateTime = None, date = None, timeZone = None\<rparr> = None"
    by (simp_all add: untimed_def start_time_def)
  have fields: "ev_id untimed = Some ''g2''" "summary untimed = Some ''Untimed''"
    by (simp_all add: untimed_def)
  from untimed_event_policy [OF 1 2 3, of Map.empty accepting "[standup]" fresh]
  show ?thesis
    by (simp add: fields dict_get_def py_str_def start_time_def)
qed

section \<open>C7: a write that fails\<close>

text \<open>
  C7 (write-failure isolation). When the call made for an event (the \<^verbatim>\<open>POST\<close> of a
  \<open>CREATE\<close>, the \<^verbatim>\<open>PATCH\<close> of an \<open>UPDATE\<close>) fails, the failure is logged under the event's
  title and the loop goes on with the events after it, the failed call counted as made.
  Whatever the service answers, the loop makes the same calls, one per event that is
  created or updated, and ends the same way.
\<close>

theorem write_failure_isolation:
  assumes "format_event ev = Inr (k, s, p)" and "reconcile existing k s p = Inr a"
    and "call_of a = Some c" and "respond (calls st) c = Some err"
  shows "sync_events respond existing (ev # evs) st =
           sync_events respond existing evs
             \<lparr>calls = calls st @ [c], logged = logged st @ [Failed_to_sync s err]\<rparr> \<and>
         calls (fst (sync_events respond existing (ev # evs) st)) =
           calls (fst (sync_events respond' existing (ev # evs) st)) \<and>
         snd (sync_events respond existing (ev # evs) st) =
           snd (sync_events respond' existing (ev # evs) st)"
proof -
  have "apply_action respond s (Inr a) st =
          \<lparr>calls = calls st @ [c], logged = logged st @ [Failed_to_sync s err]\<rparr>"
    using assms(3,4) by (cases a) (simp_all add: call_of_def apply_action_def send_def)
  with assms(1,2)
  have "sync_events respond existing (ev # evs) st =
          sync_events respond existing evs
            \<lparr>calls = calls st @ [c], logged = logged st @ [Failed_to_sync s err]\<rparr>"
    by (simp add: sync_event_def)
  moreover
  have "calls (fst (sync_events respond existing (ev # evs) st)) =
          calls (fst (sync_events respond' existing (ev # evs) st)) \<and>
        snd (sync_events respond existing (ev # evs) st) =
          snd (sync_events respond' existing (ev # evs) st)"
    by (rule sync_events_calls) simp
  ultimately show ?thesis by simp
qed

theorem write_failure_isolation_witness:
  "sync_events rejecting Map.empty [standup, offsite] fresh =
     sync_events rejecting Map.empty [offsite]
       \<lparr>calls = [POST standup_payload], logged = [Failed_to_sync ''Standup'' HTTPError]\<rparr> \<and>
   calls (fst (sync_events rejecting Map.empty [standup, offsite] fresh)) =
     calls (fst (sync_events accepting Map.empty [standup, offsite] fresh)) \<and>
   snd (sync_events rejecting Map.empty [standup, offsite] fresh) =
     snd (sync_events accepting Map.empty [standup, offsite] fresh)"
proof -
  have 1: "format_event standup = Inr (''g1_2024-01-10T09:00Z'', ''Standup'', standup_payload)"
    by (simp add: model_defs standup_def standup_payload_def)
  have 2: "reconcile Map.empty ''g1_2024-01-10T09:00Z'' ''Standup'' standup_payload =
             Inr (CREATE standup_payload)"
    by (simp add: reconcile_def)
  have 3: "call_of (CREATE standup_payload) = Some (POST standup_payload)"
    by (simp add: call_of_def)
  have 4: "rejecting (calls fresh) (POST standup_payload) = Some HTTPError"
    by (simp add: rejecting_def)
  have f: "calls fresh = []" "logged fresh = []"
    by (simp_all add: fresh_def)
  note w = write_failure_isolation [where ev = standup and k = "''g1_2024-01-10T09:00Z''"
      and s = "''Standup''" and p = standup_payload and existing = Map.empty
      and a = "CREATE standup_payload" and c = "POST standup_payload"
      and respond = rejecting and st = fresh and err = HTTPError
      and evs = "[offsite]" and respond' = accepting, OF 1 2 3 4, unfolded f append_Nil]
  show ?thesis by (rule w)
qed

section \<open>C8: the window of each reader\<close>

text \<open>What the dict of \<open>get_existing_events\<close> holds was in the answer it was built from.\<close>

lemma build_events_dict_values:
  "build_events_dict evs d = Inr d' \<Longrightarrow> d' k = Some x \<Longrightarrow> x \<in> set evs \<or> d k = Some x"
proof (induction evs arbitrary: d)
  case Nil
  then show ?case by simp
next
  case (Cons ev evs)
  from Cons.prems(1) obtain key where key: "create_event_key ev False = Inr key"
    and rest: "build_events_dict evs (d(key \<mapsto> ev)) = Inr d'"
    by (auto split: sum.splits)
  from Cons.IH [OF rest Cons.prems(2)] show ?case
    by (auto split: if_splits)
qed

lemma target_reader_values:
  assumes "target_reader graph now k = Some x"
  shows "x \<in> set (graph (destination_request now))"
proof (cases "build_events_dict (graph (destination_request now)) Map.empty")
  case (Inl err)
  with assms show ?thesis
    by (simp add: target_reader_def get_existing_events_def dict_get_def)
next
  case (Inr d)
  with assms have "d k = Some x"
    by (simp add: target_reader_def get_existing_events_def dict_get_def)
  from build_events_dict_values [OF Inr this] show ?thesis by simp
qed

text \<open>The two example services apply the bounds they are sent.\<close>

lemma google_over_applies: "google_applies_bounds starts (google_over starts calendar)"
  by (auto simp: google_applies_bounds_def google_over_def dest!: in_set_takeD)

lemma graph_over_applies: "graph_applies_bounds starts (graph_over starts calendar)"
  by (auto simp: graph_applies_bounds_def graph_over_def split: start_filter.splits)

text \<open>
  C8, as the claim states it, fails for the Target Reader. The window of the run is
  computed from the clock reading at the start of \<^verbatim>\<open>sync_calendars\<close>, here the instant 0;
  \<^verbatim>\<open>get_existing_events\<close> reads the clock again when it is called, here one second later,
  and sends the bounds of its own window. A destination event that starts half a second
  after the end of the run's window is within those bounds: the service, which applies
  them, returns it, and it is in the Target Reader's mapping.
\<close>

theorem late_event_is_read:
  "target_reader (graph_over sample_starts [standup_stored, far_event]) 1000000
     ''t9_2024-02-09T09:00:00.5000000'' = Some far_event \<and>
   0 + days_30 < sample_starts far_event"
  by (simp add: target_reader_def get_existing_events_def graph_over_def destination_request_def
      sample_starts_def days_30_def far_event_def standup_stored_def model_defs)

text \<open>
  C8, amended. Each reader computes the window from its own clock reading: the Source
  Reader at the start of the run (\<open>t0\<close>), the Target Reader when it is called (\<open>t1\<close>). If
  the two services apply the bounds they are sent, every event in the Source Reader's
  list starts within \<open>t0\<close> and \<open>t0\<close> plus thirty days, and every event in the Target
  Reader's mapping starts within \<open>t1\<close> and \<open>t1\<close> plus thirty days. The readers themselves
  filter nothing.
\<close>

theorem window_filtering:
  assumes "google_applies_bounds gstarts google" and "graph_applies_bounds xstarts graph"
  shows "(\<forall>e \<in> set (source_reader google t0). t0 \<le> gstarts e \<and> gstarts e \<le> t0 + days_30) \<and>
         (\<forall>k x. target_reader graph t1 k = Some x \<longrightarrow> t1 \<le> xstarts x \<and> xstarts x \<le> t1 + days_30)"
proof (intro conjI ballI allI impI)
  fix e
  assume "e \<in> set (source_reader google t0)"
  then have "e \<in> set (google (source_request t0))"
    by (simp add: source_reader_def)
  with assms(1)
  have "instant_of (timeMin (source_request t0)) \<le> gstarts e \<and>
        gstarts e \<le> instant_of (timeMax (source_request t0))"
    unfolding google_applies_bounds_def by blast
  then show "t0 \<le> gstarts e" and "gstarts e \<le> t0 + days_30"
    by (simp_all add: source_request_def)
next
  fix k x
  assume "target_reader graph t1 k = Some x"
  then have "x \<in> set (graph (destination_request t1))"
    by (rule target_reader_values)
  with assms(2)
  have "case filter_param (destination_request t1) of
          Start_ge_and_le a b \<Rightarrow> instant_of a \<le> xstarts x \<and> xstarts x \<le> instant_of b"
    unfolding graph_applies_bounds_def by blast
  then show "t1 \<le> xstarts x" and "xstarts x \<le> t1 + days_30"
    by (simp_all add: destination_request_def)
qed

theorem window_filtering_witness:
  "source_reader (google_over sample_starts [standup, offsite]) 0 = [standup] \<and>
   0 \<le> sample_starts standup \<and> sample_starts standup \<le> 0 + days_30 \<and>
   target_reader (graph_over sample_starts [standup_stored, far_event]) 1000000
     ''t9_2024-02-09T09:00:00.5000000'' = Some far_event \<and>
   1000000 \<le> sample_starts far_event \<and> sample_starts far_event \<le> 1000000 + days_30"
proof -
  let ?google = "google_over sample_starts [standup, offsite]"
  let ?graph = "graph_over sample_starts [standup_stored, far_event]"
  have src: "source_reader ?google 0 = [standup]"
    by (simp add: source_reader_def google_over_def source_request_def sample_starts_def
        days_30_def standup_def offsite_def)
  have tgt: "target_reader ?graph 1000000 ''t9_2024-02-09T09:00:00.5000000'' = Some far_event"
    by (simp add: target_reader_def get_existing_events_def graph_over_def destination_request_def
        sample_starts_def days_30_def far_event_def standup_stored_def model_defs)
  note w = window_filtering [where google = ?google and graph = ?graph
        and gstarts = sample_starts and xstarts = sample_starts
        and ?t0.0 = 0 and ?t1.0 = 1000000, OF google_over_applies graph_over_applies]
  from w src have "0 \<le> sample_starts standup \<and> sample_starts standup \<le> 0 + days_30"
    by simp
  moreover from w tgt
  have "1000000 \<le> sample_starts far_event \<and> sample_starts far_event \<le> 1000000 + days_30"
    by blast
  ultimately show ?thesis using src tgt by simp
qed

end
